theory Spec2Isabelle
  imports Main "HOL-Library.AList"
begin

section \<open>The robot-mode parser of makemkvcon-deno (src/lib/parser.ts)\<close>

text \<open>
  Strings are lists of code units. A \<^typ>\<open>char\<close> stands for a UTF-16 code unit below 256;
  the parser compares code units with the ASCII characters backslash, double quote, comma and
  colon only, and its white space test is the one of ECMAScript restricted to that range.
  JavaScript numbers produced by \<open>parseInt\<close> are integer valued or NaN: an integer is an
  \<^typ>\<open>int\<close>, NaN is \<open>None\<close>. Beyond \<open>2^53\<close> JavaScript rounds to the nearest double, and from
  \<open>2^1024\<close> on it gives Infinity; the model keeps the exact integer. So the model agrees with
  JavaScript on whether a result is NaN, and on the value when its magnitude is at most
  \<open>2^53\<close>. The theorems below evaluate \<open>parseInt\<close> on small numerals only; otherwise they
  relate the records of the decoder to whatever \<open>parseInt\<close> returns. Negative zero is 0.
\<close>

subsection \<open>Characters the tokenizer looks for\<close>

definition backslash :: char where
  "backslash = CHR 0x5C"

definition dquote :: char where
  "dquote = CHR 0x22"

definition comma :: char where
  "comma = CHR 0x2C"

definition colon :: char where
  "colon = CHR 0x3A"

subsection \<open>parseRobotValues (parser.ts, lines 19-58)\<close>

text \<open>
  The \<open>for\<close> loop over the input, with its four variables \<open>values\<close> (written \<open>vals\<close>),
  \<open>current\<close>, \<open>inQuotes\<close> and \<open>escaped\<close> as arguments. The branches are the loop body's, in the source's order; each
  \<open>continue\<close> is the recursive call. At the end of the input the loop returns the two
  variables that the code after the loop reads.
\<close>

fun parseRobotValues_loop ::
  "string list \<Rightarrow> string \<Rightarrow> bool \<Rightarrow> bool \<Rightarrow> string \<Rightarrow> string list \<times> string" where
  "parseRobotValues_loop vals current inQuotes escaped [] = (vals, current)"
| "parseRobotValues_loop vals current inQuotes escaped (char # input) =
     (if escaped then parseRobotValues_loop vals (current @ [char]) inQuotes False input
      else if char = backslash then parseRobotValues_loop vals current inQuotes True input
      else if char = dquote then parseRobotValues_loop vals current (\<not> inQuotes) escaped input
      else if char = comma \<and> \<not> inQuotes
        then parseRobotValues_loop (vals @ [current]) [] inQuotes escaped input
      else parseRobotValues_loop vals (current @ [char]) inQuotes escaped input)"

text \<open>
  After the loop: \<open>if (current || values.length > 0) values.push(current)\<close>. A string is
  truthy when it is not empty.
\<close>

definition truthy :: "string \<Rightarrow> bool" where
  "truthy s = (s \<noteq> [])"

definition parseRobotValues :: "string \<Rightarrow> string list" where
  "parseRobotValues input =
     (case parseRobotValues_loop [] [] False False input of
        (vals, current) \<Rightarrow>
          if truthy current \<or> length vals > 0 then vals @ [current] else vals)"

subsection \<open>Built-ins of the language that parseRobotLine calls\<close>

text \<open>
  White space in the sense of \<open>String.prototype.trim\<close> and of \<open>parseInt\<close> (ECMAScript
  WhiteSpace and LineTerminator), for code units below 256: TAB, LF, VT, FF, CR, SP, NBSP.
\<close>

definition isWhiteSpace :: "char \<Rightarrow> bool" where
  "isWhiteSpace c =
     (c \<in> set [CHR 0x09, CHR 0x0A, CHR 0x0B, CHR 0x0C, CHR 0x0D, CHR 0x20, CHR 0xA0])"

definition trim :: "string \<Rightarrow> string" where
  "trim s = rev (dropWhile isWhiteSpace (rev (dropWhile isWhiteSpace s)))"

text \<open>\<open>s.indexOf(c)\<close>: the first index of \<open>c\<close>; \<open>None\<close> is the result -1.\<close>

definition indexOf :: "string \<Rightarrow> char \<Rightarrow> nat option" where
  "indexOf s c = (if c \<in> set s then Some (length (takeWhile (\<lambda>x. x \<noteq> c) s)) else None)"

text \<open>
  \<open>parseInt(string)\<close> with no radix argument, after ECMA-262 (parseInt): strip leading white
  space, read an optional sign, switch to radix 16 after a prefix \<open>0x\<close> or \<open>0X\<close>, keep the
  longest prefix of digits of the radix, and return NaN when that prefix is empty. What follows
  the digits is ignored. \<open>None\<close> is NaN. The steps after the sign are \<open>parseInt_magnitude\<close>.
\<close>

definition digitValue :: "char \<Rightarrow> nat option" where
  "digitValue c =
     (let n = (of_char c :: nat) in
      if 48 \<le> n \<and> n \<le> 57 then Some (n - 48)
      else if 97 \<le> n \<and> n \<le> 122 then Some (n - 87)
      else if 65 \<le> n \<and> n \<le> 90 then Some (n - 55)
      else None)"

definition isRadixDigit :: "nat \<Rightarrow> char \<Rightarrow> bool" where
  "isRadixDigit R c = (case digitValue c of None \<Rightarrow> False | Some d \<Rightarrow> d < R)"

definition mathInt :: "nat \<Rightarrow> string \<Rightarrow> nat" where
  "mathInt R Z =
     foldl (\<lambda>a c. a * R + (case digitValue c of None \<Rightarrow> 0 | Some d \<Rightarrow> d)) 0 Z"

definition parseInt_magnitude :: "string \<Rightarrow> nat option" where
  "parseInt_magnitude S =
     (let hex = (2 \<le> length S \<and> (take 2 S = ''0x'' \<or> take 2 S = ''0X''));
          R = (if hex then 16 else 10);
          S = (if hex then drop 2 S else S);
          Z = takeWhile (isRadixDigit R) S
      in if Z = [] then None else Some (mathInt R Z))"

definition parseInt :: "string \<Rightarrow> int option" where
  "parseInt string =
     (let S = dropWhile isWhiteSpace string;
          sign = (if S \<noteq> [] \<and> hd S = CHR ''-'' then - 1 else (1 :: int));
          S = (if S \<noteq> [] \<and> (hd S = CHR ''+'' \<or> hd S = CHR ''-'') then tl S else S)
      in case parseInt_magnitude S of
           None \<Rightarrow> None
         | Some n \<Rightarrow> Some (sign * int n))"

text \<open>\<open>output.split("\n")\<close>: the pieces between the separators; the empty string gives one
  empty piece. The second argument is the piece being read.\<close>

fun split :: "char \<Rightarrow> string \<Rightarrow> string \<Rightarrow> string list" where
  "split sep piece [] = [piece]"
| "split sep piece (c # cs) =
     (if c = sep then piece # split sep [] cs else split sep (piece @ [c]) cs)"

subsection \<open>The records (src/lib/types.ts)\<close>

datatype ProgressType = PRGC | PRGT

datatype InfoType = CINFO | TINFO | SINFO

text \<open>
  \<open>RobotOutput\<close>, the union discriminated by \<open>type\<close>. The fields are in the order of the
  interfaces: MsgOutput code flags count message format params; ProgressTitle type code id name;
  ProgressValue current total max; DriveInfo index visible enabled flags driveName discName;
  TitleCount count; InfoOutput type id code value.
\<close>

datatype RobotOutput =
    MsgOutput int int int string string "string list"
  | ProgressTitle ProgressType int int string
  | ProgressValue int int int
  | DriveInfo int bool bool int string string
  | TitleCount int
  | InfoOutput InfoType int int string

text \<open>A thrown JavaScript exception, as a value.\<close>

datatype exn = TypeError | Exception

subsection \<open>parseRobotLine (parser.ts, lines 63-174)\<close>

text \<open>
  The \<open>switch\<close> inside the \<open>try\<close> block. Its result is \<open>Inl e\<close> when the block throws \<open>e\<close>,
  \<open>Inr None\<close> when it returns \<open>null\<close> and \<open>Inr (Some r)\<close> when it returns the record \<open>r\<close>.
  The numeric parser is an argument, so that the \<open>catch\<close> clause can be exercised: the source
  calls the built-in \<open>parseInt\<close>, which never throws on a string (\<open>parseInt_completion\<close>
  below). The variables \<open>id\<close>, \<open>total\<close> and \<open>max\<close> carry a prime, since HOL has
  constants of these names. The reads \<open>parts[i]\<close> all come after the check of
  \<open>parts.length\<close>, as in the source.
  \<open>isNaN(a) || isNaN(b)\<close> holds when one of the parsed values is \<open>None\<close>.
\<close>

definition try_bind :: "exn + 'a \<Rightarrow> ('a \<Rightarrow> exn + 'b) \<Rightarrow> exn + 'b" where
  "try_bind m f = (case m of Inl e \<Rightarrow> Inl e | Inr x \<Rightarrow> f x)"

definition parseRobotLine_switch ::
  "(string \<Rightarrow> exn + int option) \<Rightarrow> string \<Rightarrow> string \<Rightarrow> exn + RobotOutput option" where
  "parseRobotLine_switch parse_int type rest =
     (if type = ''MSG'' then
        (let parts = parseRobotValues rest in
         if length parts < 5 then Inr None
         else
           try_bind (parse_int (parts ! 0)) (\<lambda>code.
           try_bind (parse_int (parts ! 1)) (\<lambda>flags.
           try_bind (parse_int (parts ! 2)) (\<lambda>count.
             case (code, flags, count) of
               (Some code, Some flags, Some count) \<Rightarrow>
                 Inr (Some (MsgOutput code flags count (parts ! 3) (parts ! 4) (drop 5 parts)))
             | _ \<Rightarrow> Inr None))))
      else if type = ''PRGC'' \<or> type = ''PRGT'' then
        (let parts = parseRobotValues rest in
         if length parts < 3 then Inr None
         else
           try_bind (parse_int (parts ! 0)) (\<lambda>code.
           try_bind (parse_int (parts ! 1)) (\<lambda>id'.
             case (code, id') of
               (Some code, Some id') \<Rightarrow>
                 Inr (Some (ProgressTitle (if type = ''PRGC'' then PRGC else PRGT)
                              code id' (parts ! 2)))
             | _ \<Rightarrow> Inr None)))
      else if type = ''PRGV'' then
        (let parts = parseRobotValues rest in
         if length parts < 3 then Inr None
         else
           try_bind (parse_int (parts ! 0)) (\<lambda>current.
           try_bind (parse_int (parts ! 1)) (\<lambda>total'.
           try_bind (parse_int (parts ! 2)) (\<lambda>max'.
             case (current, total', max') of
               (Some current, Some total', Some max') \<Rightarrow>
                 Inr (Some (ProgressValue current total' max'))
             | _ \<Rightarrow> Inr None))))
      else if type = ''DRV'' then
        (let parts = parseRobotValues rest in
         if length parts < 6 then Inr None
         else
           try_bind (parse_int (parts ! 0)) (\<lambda>index.
           try_bind (parse_int (parts ! 3)) (\<lambda>flags.
             case (index, flags) of
               (Some index, Some flags) \<Rightarrow>
                 Inr (Some (DriveInfo index (parts ! 1 = ''1'') (parts ! 2 = ''1'') flags
                              (parts ! 4) (parts ! 5)))
             | _ \<Rightarrow> Inr None)))
      else if type = ''TCOUT'' then
        (let parts = parseRobotValues rest in
         if length parts < 1 then Inr None
         else
           try_bind (parse_int (parts ! 0)) (\<lambda>count.
             case count of
               Some count \<Rightarrow> Inr (Some (TitleCount count))
             | None \<Rightarrow> Inr None))
      else if type = ''CINFO'' \<or> type = ''TINFO'' \<or> type = ''SINFO'' then
        (let parts = parseRobotValues rest in
         if length parts < 3 then Inr None
         else
           try_bind (parse_int (parts ! 0)) (\<lambda>id'.
           try_bind (parse_int (parts ! 1)) (\<lambda>code.
             case (id', code) of
               (Some id', Some code) \<Rightarrow>
                 Inr (Some (InfoOutput
                              (if type = ''CINFO'' then CINFO
                               else if type = ''TINFO'' then TINFO else SINFO)
                              id' code (parts ! 2)))
             | _ \<Rightarrow> Inr None)))
      else Inr None)"

text \<open>
  The function around the \<open>try\<close> block: trim, reject the empty line, find the first colon,
  cut the line there, run the \<open>switch\<close>, and turn a thrown exception into \<open>null\<close>.
\<close>

definition parseRobotLine_with ::
  "(string \<Rightarrow> exn + int option) \<Rightarrow> string \<Rightarrow> RobotOutput option" where
  "parseRobotLine_with parse_int line =
     (let trimmed = trim line in
      if trimmed = [] then None
      else
        (case indexOf trimmed colon of
           None \<Rightarrow> None
         | Some colonIndex \<Rightarrow>
             (let type = take colonIndex trimmed;
                  rest = drop (colonIndex + 1) trimmed
              in case parseRobotLine_switch parse_int type rest of
                   Inl e \<Rightarrow> None
                 | Inr result \<Rightarrow> result)))"

definition parseInt_completion :: "string \<Rightarrow> exn + int option" where
  "parseInt_completion s = Inr (parseInt s)"

definition parseRobotLine :: "string \<Rightarrow> RobotOutput option" where
  "parseRobotLine line = parseRobotLine_with parseInt_completion line"

subsection \<open>parseRobotOutput (parser.ts, lines 179-184)\<close>

definition parseRobotOutput :: "string \<Rightarrow> RobotOutput list" where
  "parseRobotOutput output = List.map_filter parseRobotLine (split (CHR 0x0A) [] output)"

subsection \<open>The JavaScript Map\<close>

text \<open>
  A \<open>Map\<close> keeps its entries in the order in which their keys were first set, and \<open>set\<close> on
  a key that is present replaces the value where the entry stands. This is an association
  list with \<^const>\<open>AList.update\<close>. Integer keys are compared as integers, which is what
  SameValueZero does on integer-valued numbers.
\<close>

definition Map_has :: "('k \<times> 'v) list \<Rightarrow> 'k \<Rightarrow> bool" where
  "Map_has m k = (k \<in> fst ` set m)"

definition Map_get :: "('k \<times> 'v) list \<Rightarrow> 'k \<Rightarrow> 'v option" where
  "Map_get m k = map_of m k"

definition Map_set :: "('k \<times> 'v) list \<Rightarrow> 'k \<Rightarrow> 'v \<Rightarrow> ('k \<times> 'v) list" where
  "Map_set m k v = AList.update k v m"

definition Map_values :: "('k \<times> 'v) list \<Rightarrow> 'v list" where
  "Map_values m = map snd m"

subsection \<open>DiscInfo, TitleInfo, StreamInfo (src/lib/types.ts)\<close>

text \<open>
  The fields \<open>id\<close>, \<open>attributes\<close>, \<open>streams\<close> and \<open>titles\<close> of the three interfaces, with the
  interface as a prefix. The optional getters of \<open>AttributeGetters\<close> are not set by the parser
  and are left out.
\<close>

record StreamInfo =
  stream_id :: int
  stream_attributes :: "(int \<times> string) list"

record TitleInfo =
  title_id :: int
  title_attributes :: "(int \<times> string) list"
  title_streams :: "StreamInfo list"

record DiscInfo =
  disc_attributes :: "(int \<times> string) list"
  disc_titles :: "TitleInfo list"

subsection \<open>parseDiscInfo (parser.ts, lines 195-232)\<close>

text \<open>
  The body of the \<open>for\<close> loop, on the two maps \<open>discAttributes\<close> and \<open>titlesMap\<close>. The title
  object is shared between the map and the variable \<open>title\<close>, so \<open>title.attributes.set\<close>
  changes the entry of the map: the model stores the changed title back under its key.
  \<open>titlesMap.get(item.id)!\<close> is checked by the compiler only; on \<open>undefined\<close> the next line
  would throw a TypeError, which is the \<open>None\<close> branch.
\<close>

definition parseDiscInfo_body ::
  "(int \<times> string) list \<times> (int \<times> TitleInfo) list \<Rightarrow> RobotOutput \<Rightarrow>
   exn + (int \<times> string) list \<times> (int \<times> TitleInfo) list" where
  "parseDiscInfo_body st item =
     (case st of (discAttributes, titlesMap) \<Rightarrow>
      (case item of
         InfoOutput type id' code v \<Rightarrow>
           if type = CINFO then Inr (Map_set discAttributes id' v, titlesMap)
           else if type = TINFO then
             (let titlesMap =
                    (if \<not> Map_has titlesMap id'
                     then Map_set titlesMap id'
                            \<lparr>title_id = id', title_attributes = [], title_streams = []\<rparr>
                     else titlesMap)
              in case Map_get titlesMap id' of
                   None \<Rightarrow> Inl TypeError
                 | Some title \<Rightarrow>
                     Inr (discAttributes,
                          Map_set titlesMap id'
                            (title\<lparr>title_attributes :=
                                     Map_set (title_attributes title) code v\<rparr>)))
           else Inr (discAttributes, titlesMap)
       | _ \<Rightarrow> Inr (discAttributes, titlesMap)))"

fun parseDiscInfo_loop ::
  "(int \<times> string) list \<times> (int \<times> TitleInfo) list \<Rightarrow> RobotOutput list \<Rightarrow>
   exn + (int \<times> string) list \<times> (int \<times> TitleInfo) list" where
  "parseDiscInfo_loop st [] = Inr st"
| "parseDiscInfo_loop st (item # robotOutput) =
     (case parseDiscInfo_body st item of
        Inl e \<Rightarrow> Inl e
      | Inr st' \<Rightarrow> parseDiscInfo_loop st' robotOutput)"

definition parseDiscInfo :: "RobotOutput list \<Rightarrow> exn + DiscInfo" where
  "parseDiscInfo robotOutput =
     (case parseDiscInfo_loop ([], []) robotOutput of
        Inl e \<Rightarrow> Inl e
      | Inr (discAttributes, titlesMap) \<Rightarrow>
          Inr \<lparr>disc_attributes = discAttributes, disc_titles = Map_values titlesMap\<rparr>)"

subsection \<open>parseDiscInfoAdvanced (parser.ts, lines 238-282)\<close>

text \<open>
  The same loop with a third map, \<open>streamsMap\<close>, which the function fills and never reads
  into its result. Its key is the template string of \<open>item.id\<close>, a dash and \<open>item.code\<close>;
  the decimal rendering of two integers around a dash determines both, so the key is
  modelled as the pair.
\<close>

definition parseDiscInfoAdvanced_body ::
  "(int \<times> string) list \<times> (int \<times> TitleInfo) list \<times> ((int \<times> int) \<times> StreamInfo) list \<Rightarrow>
   RobotOutput \<Rightarrow>
   exn + (int \<times> string) list \<times> (int \<times> TitleInfo) list \<times> ((int \<times> int) \<times> StreamInfo) list"
  where
  "parseDiscInfoAdvanced_body st item =
     (case st of (discAttributes, titlesMap, streamsMap) \<Rightarrow>
      (case item of
         InfoOutput type id' code v \<Rightarrow>
           if type = CINFO then Inr (Map_set discAttributes code v, titlesMap, streamsMap)
           else if type = TINFO then
             (let titlesMap =
                    (if \<not> Map_has titlesMap id'
                     then Map_set titlesMap id'
                            \<lparr>title_id = id', title_attributes = [], title_streams = []\<rparr>
                     else titlesMap)
              in case Map_get titlesMap id' of
                   None \<Rightarrow> Inl TypeError
                 | Some title \<Rightarrow>
                     Inr (discAttributes,
                          Map_set titlesMap id'
                            (title\<lparr>title_attributes :=
                                     Map_set (title_attributes title) code v\<rparr>),
                          streamsMap))
           else
             (let key = (id', code);
                  streamsMap =
                    (if \<not> Map_has streamsMap key
                     then Map_set streamsMap key \<lparr>stream_id = id', stream_attributes = []\<rparr>
                     else streamsMap)
              in case Map_get streamsMap key of
                   None \<Rightarrow> Inl TypeError
                 | Some stream \<Rightarrow>
                     Inr (discAttributes, titlesMap,
                          Map_set streamsMap key
                            (stream\<lparr>stream_attributes :=
                                      Map_set (stream_attributes stream) code v\<rparr>)))
       | _ \<Rightarrow> Inr (discAttributes, titlesMap, streamsMap)))"

fun parseDiscInfoAdvanced_loop ::
  "(int \<times> string) list \<times> (int \<times> TitleInfo) list \<times> ((int \<times> int) \<times> StreamInfo) list \<Rightarrow>
   RobotOutput list \<Rightarrow>
   exn + (int \<times> string) list \<times> (int \<times> TitleInfo) list \<times> ((int \<times> int) \<times> StreamInfo) list"
  where
  "parseDiscInfoAdvanced_loop st [] = Inr st"
| "parseDiscInfoAdvanced_loop st (item # robotOutput) =
     (case parseDiscInfoAdvanced_body st item of
        Inl e \<Rightarrow> Inl e
      | Inr st' \<Rightarrow> parseDiscInfoAdvanced_loop st' robotOutput)"

definition parseDiscInfoAdvanced :: "RobotOutput list \<Rightarrow> exn + DiscInfo" where
  "parseDiscInfoAdvanced robotOutput =
     (case parseDiscInfoAdvanced_loop ([], [], []) robotOutput of
        Inl e \<Rightarrow> Inl e
      | Inr (discAttributes, titlesMap, streamsMap) \<Rightarrow>
          Inr \<lparr>disc_attributes = discAttributes, disc_titles = Map_values titlesMap\<rparr>)"

subsection \<open>getTitleCount (parser.ts, lines 319-324)\<close>

text \<open>\<open>find\<close> returns the first element that the predicate accepts; \<open>None\<close> is \<open>null\<close>.\<close>

fun is_TCOUT :: "RobotOutput \<Rightarrow> bool" where
  "is_TCOUT (TitleCount c) = True"
| "is_TCOUT _ = False"

definition getTitleCount :: "RobotOutput list \<Rightarrow> int option" where
  "getTitleCount robotOutput =
     (case find is_TCOUT robotOutput of
        Some (TitleCount c) \<Rightarrow> Some c
      | _ \<Rightarrow> None)"

section \<open>Vocabulary of the specification\<close>

subsection \<open>Tokenizer\<close>

text \<open>A field with no raw comma, double quote or backslash.\<close>

definition plain :: "string \<Rightarrow> bool" where
  "plain f = (comma \<notin> set f \<and> dquote \<notin> set f \<and> backslash \<notin> set f)"

text \<open>Joining a field sequence with commas, as \<open>Array.prototype.join(",")\<close> does.\<close>

fun join_commas :: "string list \<Rightarrow> string" where
  "join_commas [] = []"
| "join_commas [x] = x"
| "join_commas (x # y # xs) = x @ comma # join_commas (y # xs)"

text \<open>
  The escaped backslashes of a payload: a backslash opens an escape unless an escape is
  pending, and the character after an opening backslash is escaped. The flag says whether an
  escape is pending before the first character.
\<close>

fun escaped_backslashes :: "bool \<Rightarrow> string \<Rightarrow> nat" where
  "escaped_backslashes pending [] = 0"
| "escaped_backslashes pending (c # cs) =
     (if pending then (if c = backslash then 1 else 0) + escaped_backslashes False cs
      else escaped_backslashes (c = backslash) cs)"

text \<open>Some backslash of the payload is directly followed by another backslash.\<close>

fun backslash_pair :: "string \<Rightarrow> bool" where
  "backslash_pair (a # b # cs) = ((a = backslash \<and> b = backslash) \<or> backslash_pair (b # cs))"
| "backslash_pair _ = False"

text \<open>The number of backslashes in a field sequence.\<close>

definition count_backslashes :: "string list \<Rightarrow> nat" where
  "count_backslashes fs = sum_list (map (\<lambda>f. count_list f backslash) fs)"

subsection \<open>Decoder\<close>

text \<open>
  The table of section 4.2 of the specification: the minimum field count of each record-type
  tag (\<open>None\<close> for an unrecognised tag) and the positions of its integer fields.
\<close>

definition min_fields :: "string \<Rightarrow> nat option" where
  "min_fields tag =
     (if tag = ''MSG'' then Some 5
      else if tag = ''PRGC'' \<or> tag = ''PRGT'' then Some 3
      else if tag = ''PRGV'' then Some 3
      else if tag = ''DRV'' then Some 6
      else if tag = ''TCOUT'' then Some 1
      else if tag = ''CINFO'' \<or> tag = ''TINFO'' \<or> tag = ''SINFO'' then Some 3
      else None)"

definition int_positions :: "string \<Rightarrow> nat list" where
  "int_positions tag =
     (if tag = ''MSG'' then [0, 1, 2]
      else if tag = ''PRGC'' \<or> tag = ''PRGT'' then [0, 1]
      else if tag = ''PRGV'' then [0, 1, 2]
      else if tag = ''DRV'' then [0, 3]
      else if tag = ''TCOUT'' then [0]
      else if tag = ''CINFO'' \<or> tag = ''TINFO'' \<or> tag = ''SINFO'' then [0, 1]
      else [])"

text \<open>
  The tag of a line is the text of the trimmed line before its first colon (\<open>None\<close> when the
  line has no colon); the payload is the text after that colon, and the fields of the line
  are the tokens of the payload.
\<close>

definition line_tag :: "string \<Rightarrow> string option" where
  "line_tag line =
     (if colon \<in> set (trim line) then Some (takeWhile (\<lambda>c. c \<noteq> colon) (trim line))
      else None)"

definition line_payload :: "string \<Rightarrow> string" where
  "line_payload line = tl (dropWhile (\<lambda>c. c \<noteq> colon) (trim line))"

definition line_fields :: "string \<Rightarrow> string list" where
  "line_fields line = parseRobotValues (line_payload line)"

text \<open>A base-10 integer numeral: an optional minus sign and one or more decimal digits.\<close>

definition base10_numeral :: "string \<Rightarrow> bool" where
  "base10_numeral s =
     (let digits = (if s \<noteq> [] \<and> hd s = CHR ''-'' then tl s else s)
      in digits \<noteq> [] \<and> list_all (\<lambda>c. c \<in> set ''0123456789'') digits)"

text \<open>
  A field has a numeric prefix when, after its leading white space and one optional sign,
  what remains either starts with \<open>0x\<close> or \<open>0X\<close> and has a hexadecimal digit right after that
  prefix, or does not start with \<open>0x\<close> or \<open>0X\<close> and starts with a decimal digit.
\<close>

definition numeric_prefix :: "string \<Rightarrow> bool" where
  "numeric_prefix s =
     (let t = dropWhile isWhiteSpace s;
          u = (if t \<noteq> [] \<and> (hd t = CHR ''+'' \<or> hd t = CHR ''-'') then tl t else t)
      in if 2 \<le> length u \<and> (take 2 u = ''0x'' \<or> take 2 u = ''0X'')
         then 3 \<le> length u \<and> u ! 2 \<in> set ''0123456789abcdefABCDEF''
         else u \<noteq> [] \<and> hd u \<in> set ''0123456789'')"

text \<open>The integer fields of a record, in the order of the integer positions of its tag.\<close>

fun record_ints :: "RobotOutput \<Rightarrow> int list" where
  "record_ints (MsgOutput code flags count message format params) = [code, flags, count]"
| "record_ints (ProgressTitle type code id' name) = [code, id']"
| "record_ints (ProgressValue current total' max') = [current, total', max']"
| "record_ints (DriveInfo index visible enabled flags driveName discName) = [index, flags]"
| "record_ints (TitleCount count) = [count]"
| "record_ints (InfoOutput type id' code v) = [id', code]"

text \<open>The five lines of scenario 6 of the specification, and the text they form.\<close>

definition example_lines :: "string list" where
  "example_lines =
     [''CINFO:1,0,'' @ [dquote] @ ''DVD'' @ [dquote],
      ''CINFO:32,0,'' @ [dquote] @ ''MY_DISC'' @ [dquote],
      ''TINFO:0,2,0,'' @ [dquote] @ ''Title 1'' @ [dquote],
      ''TINFO:0,16,0,'' @ [dquote] @ ''00001.m2ts'' @ [dquote],
      ''TINFO:1,2,0,'' @ [dquote] @ ''Title 2'' @ [dquote]]"

definition example_output :: string where
  "example_output =
     example_lines ! 0 @ [CHR 0x0A] @ example_lines ! 1 @ [CHR 0x0A] @
     example_lines ! 2 @ [CHR 0x0A] @ example_lines ! 3 @ [CHR 0x0A] @ example_lines ! 4"

subsection \<open>Aggregator\<close>

text \<open>
  The records that write a given key: a disc-scope Info record writes the disc attribute
  named by its \<open>id\<close> (in parseDiscInfo) or by its \<open>code\<close> (in parseDiscInfoAdvanced); a
  title-scope Info record writes, in the title named by its \<open>id\<close>, the attribute named by
  its \<open>code\<close>.
\<close>

fun disc_record :: "int \<Rightarrow> RobotOutput \<Rightarrow> bool" where
  "disc_record k (InfoOutput ty i c v) = (ty = CINFO \<and> i = k)"
| "disc_record k _ = False"

fun code_record :: "int \<Rightarrow> RobotOutput \<Rightarrow> bool" where
  "code_record k (InfoOutput ty i c v) = (ty = CINFO \<and> c = k)"
| "code_record k _ = False"

fun title_record :: "int \<Rightarrow> int \<Rightarrow> RobotOutput \<Rightarrow> bool" where
  "title_record t k (InfoOutput ty i c v) = (ty = TINFO \<and> i = t \<and> c = k)"
| "title_record t k _ = False"

fun stream_record :: "RobotOutput \<Rightarrow> bool" where
  "stream_record (InfoOutput ty i c v) = (ty = SINFO)"
| "stream_record _ = False"

fun info_value :: "RobotOutput \<Rightarrow> string option" where
  "info_value (InfoOutput ty i c v) = Some v"
| "info_value _ = None"

fun title_count :: "RobotOutput \<Rightarrow> int option" where
  "title_count (TitleCount c) = Some c"
| "title_count _ = None"

text \<open>
  Last write wins: the value under a key is the value of the last record of the sequence
  that writes the key, and there is none when no record writes it.
\<close>

definition last_written :: "(RobotOutput \<Rightarrow> bool) \<Rightarrow> RobotOutput list \<Rightarrow> string option" where
  "last_written P rs = (case rev (filter P rs) of [] \<Rightarrow> None | r # _ \<Rightarrow> info_value r)"

text \<open>
  The title numbers of a record sequence, in the order of the records, and the order of
  first appearance: every number once, at the place of its first occurrence.
\<close>

fun title_number :: "RobotOutput \<Rightarrow> int list" where
  "title_number (InfoOutput ty i c v) = (if ty = TINFO then [i] else [])"
| "title_number _ = []"

definition title_numbers :: "RobotOutput list \<Rightarrow> int list" where
  "title_numbers rs = concat (map title_number rs)"

definition first_seen :: "int list \<Rightarrow> int list" where
  "first_seen xs = rev (remdups (rev xs))"

subsection \<open>The invariant of the aggregation loop\<close>

text \<open>The title that the loop creates when it sees a title number for the first time.\<close>

definition new_title :: "int \<Rightarrow> TitleInfo" where
  "new_title i = \<lparr>title_id = i, title_attributes = [], title_streams = []\<rparr>"

text \<open>The invariant of the loop of parseDiscInfo after the records \<open>rs\<close>.\<close>

definition agg_inv ::
  "RobotOutput list \<Rightarrow> (int \<times> string) list \<times> (int \<times> TitleInfo) list \<Rightarrow> bool" where
  "agg_inv rs st =
     (case st of (da, tm) \<Rightarrow>
        (\<forall>k. map_of da k = last_written (disc_record k) rs) \<and>
        map fst tm = first_seen (title_numbers rs) \<and>
        (\<forall>i t. map_of tm i = Some t \<longrightarrow>
           title_id t = i \<and> title_streams t = [] \<and>
           (\<forall>k. map_of (title_attributes t) k = last_written (title_record i k) rs)))"

section \<open>Properties of the tokenizer\<close>

text \<open>
  C4 (as amended). The empty payload gives zero fields, and the payload made of two
  double-quote characters, a single empty quoted string, gives zero fields as well: both
  quotes only toggle the flag, so at the end of the input the buffer is empty and no field
  has been pushed.
\<close>

theorem parseRobotValues_empty_payloads:
  "parseRobotValues [] = []
   \<and> parseRobotValues [dquote, dquote] = []"
  by (simp add: parseRobotValues_def truthy_def backslash_def dquote_def comma_def)

text \<open>
  C4 as the specification states it fails: the payload of two double-quote characters does
  not give the one-field sequence holding the empty string.
\<close>

theorem parseRobotValues_empty_quoted_counterexample:
  "parseRobotValues [dquote, dquote] \<noteq> [[]]"
  by (simp add: parseRobotValues_def truthy_def backslash_def dquote_def comma_def)

subsection \<open>Escapes\<close>

lemma loop_count_backslashes:
  "parseRobotValues_loop vals current q esc input = (vals', current') \<Longrightarrow>
   count_backslashes vals' + count_list current' backslash =
   count_backslashes vals + count_list current backslash + escaped_backslashes esc input"
  by (induction vals current q esc input rule: parseRobotValues_loop.induct)
     (auto simp: count_backslashes_def split: if_splits)

lemma parseRobotValues_count_backslashes:
  "count_backslashes (parseRobotValues input) = escaped_backslashes False input"
proof -
  obtain vs c where r: "parseRobotValues_loop [] [] False False input = (vs, c)"
    by (cases "parseRobotValues_loop [] [] False False input")
  from loop_count_backslashes [OF r] show ?thesis using r
    by (auto simp: parseRobotValues_def truthy_def count_backslashes_def)
qed

lemma escaped_backslashes_pair:
  "escaped_backslashes esc input > 0 \<Longrightarrow>
   (esc \<and> input \<noteq> [] \<and> hd input = backslash) \<or> backslash_pair input"
proof (induction esc input rule: escaped_backslashes.induct)
  case (1 pending)
  then show ?case by simp
next
  case (2 pending c cs)
  then show ?case
    by (cases cs) (auto split: if_splits)
qed

lemma no_pair_no_backslash:
  assumes "\<not> backslash_pair input" "f \<in> set (parseRobotValues input)"
  shows "backslash \<notin> set f"
proof -
  have "escaped_backslashes False input = 0"
    using escaped_backslashes_pair [of False input] assms(1) by auto
  then have "count_backslashes (parseRobotValues input) = 0"
    by (simp add: parseRobotValues_count_backslashes)
  then have "count_list f backslash = 0"
    using assms(2) by (simp add: count_backslashes_def)
  then show ?thesis by (simp add: count_list_0_iff)
qed

text \<open>
  C5. Wherever the scan stands (any fields pushed so far, any buffer, inside or outside
  quotes) with no escape pending, a backslash followed by a character \<open>c\<close> leaves the state
  as it was except that \<open>c\<close> has been appended to the buffer: nothing is emitted for the
  backslash, \<open>c\<close> is taken verbatim whatever it is, and the escape flag is down again. The
  payload backslash, \<open>n\<close> gives the one field \<open>n\<close>. The backslashes of the output fields are
  exactly the escaped backslashes of the payload, so a backslash that opens an escape never
  reaches a field; in particular a payload in which no backslash directly follows another
  gives fields with no backslash at all.
\<close>

theorem backslash_keeps_next_char:
  "parseRobotValues_loop vals current inQuotes False (backslash # c # rest) =
     parseRobotValues_loop vals (current @ [c]) inQuotes False rest
   \<and> parseRobotValues [backslash, CHR ''n''] = [''n'']
   \<and> count_backslashes (parseRobotValues input) = escaped_backslashes False input
   \<and> (\<not> backslash_pair input \<longrightarrow> (\<forall>f \<in> set (parseRobotValues input). backslash \<notin> set f))"
proof -
  have "parseRobotValues [backslash, CHR ''n''] = [''n'']"
    by (simp add: parseRobotValues_def truthy_def backslash_def)
  then show ?thesis
    using parseRobotValues_count_backslashes [of input] no_pair_no_backslash [of input]
    by simp
qed

theorem backslash_keeps_next_char_witness:
  "\<not> backslash_pair [CHR ''a'', backslash, dquote, CHR ''b'']
   \<and> parseRobotValues [CHR ''a'', backslash, dquote, CHR ''b''] = [[CHR ''a'', dquote, CHR ''b'']]
   \<and> backslash \<notin> set [CHR ''a'', dquote, CHR ''b'']"
proof -
  have np: "\<not> backslash_pair [CHR ''a'', backslash, dquote, CHR ''b'']"
    by (simp add: backslash_def dquote_def)
  have ev: "parseRobotValues [CHR ''a'', backslash, dquote, CHR ''b'']
            = [[CHR ''a'', dquote, CHR ''b'']]"
    by (simp add: parseRobotValues_def truthy_def backslash_def dquote_def comma_def)
  have "\<forall>f \<in> set (parseRobotValues [CHR ''a'', backslash, dquote, CHR ''b'']).
          backslash \<notin> set f"
    using backslash_keeps_next_char [of "[]" "[]" False "CHR ''a''" "[]"
        "[CHR ''a'', backslash, dquote, CHR ''b'']"] np
    by blast
  then show ?thesis using np ev by simp
qed

subsection \<open>Joining and tokenizing\<close>

lemma loop_plain:
  "plain f \<Longrightarrow>
   parseRobotValues_loop vals current False False (f @ rest) =
   parseRobotValues_loop vals (current @ f) False False rest"
  by (induction f arbitrary: current) (auto simp: plain_def)

lemma loop_join:
  "\<forall>f \<in> set (x # xs). plain f \<Longrightarrow>
   parseRobotValues_loop vals current False False (join_commas (x # xs)) =
   (vals @ butlast ((current @ x) # xs), last ((current @ x) # xs))"
proof (induction xs arbitrary: vals current x)
  case Nil
  then show ?case using loop_plain [of x vals current "[]"] by simp
next
  case (Cons y ys)
  have px: "plain x" using Cons.prems by simp
  have "parseRobotValues_loop vals current False False (join_commas (x # y # ys)) =
        parseRobotValues_loop vals (current @ x) False False (comma # join_commas (y # ys))"
    using loop_plain [OF px] by simp
  also have "\<dots> =
        parseRobotValues_loop (vals @ [current @ x]) [] False False (join_commas (y # ys))"
    by (simp add: comma_def backslash_def dquote_def)
  also have "\<dots> = ((vals @ [current @ x]) @ butlast (([] @ y) # ys), last (([] @ y) # ys))"
    using Cons.prems by (intro Cons.IH) simp
  finally show ?case by simp
qed

lemma roundtrip:
  assumes "\<forall>f \<in> set xs. plain f" "xs \<noteq> [[]]"
  shows "parseRobotValues (join_commas xs) = xs"
proof (cases xs)
  case Nil
  then show ?thesis by (simp add: parseRobotValues_def truthy_def)
next
  case (Cons x ys)
  have "parseRobotValues_loop [] [] False False (join_commas (x # ys)) =
        ([] @ butlast (([] @ x) # ys), last (([] @ x) # ys))"
    using assms(1) Cons by (intro loop_join) simp
  then show ?thesis using assms(2) Cons
    by (auto simp: parseRobotValues_def truthy_def)
qed

text \<open>
  C7 (as amended). For every sequence of strings, none of which contains a raw comma, double
  quote or backslash, and which is not the one-element sequence holding the empty string,
  joining the sequence with commas and tokenizing the result gives the sequence back.
\<close>

theorem join_tokenize_roundtrip:
  "\<forall>f \<in> set fs. plain f \<Longrightarrow> fs \<noteq> [[]] \<Longrightarrow>
   parseRobotValues (join_commas fs) = fs"
  by (rule roundtrip)

theorem join_tokenize_roundtrip_witness:
  "plain ''1'' \<and> plain [] \<and> plain ''c3''
   \<and> parseRobotValues (join_commas [''1'', [], ''c3'']) = [''1'', [], ''c3'']"
proof -
  have p: "\<forall>f \<in> set [''1'', [], ''c3'']. plain f"
    by (simp add: plain_def comma_def dquote_def backslash_def)
  have n: "[''1'', [], ''c3''] \<noteq> [[]]" by simp
  show ?thesis using join_tokenize_roundtrip [OF p n] p by simp
qed

text \<open>
  C7 as the specification states it fails on the sequence whose only element is the empty
  string: the empty string contains no comma, quote or backslash, the join is the empty
  payload, and its tokens are the empty sequence.
\<close>

theorem join_tokenize_single_empty_counterexample:
  "plain [] \<and> parseRobotValues (join_commas [[]]) \<noteq> [[]]"
  by (simp add: plain_def parseRobotValues_def truthy_def)

section \<open>Properties of the aggregator\<close>

subsection \<open>The vocabulary on a sequence extended by one record\<close>

lemma last_written_snoc:
  "last_written P (rs @ [r]) = (if P r then info_value r else last_written P rs)"
  by (simp add: last_written_def)

lemma first_seen_snoc:
  "first_seen (xs @ [x]) = (if x \<in> set xs then first_seen xs else first_seen xs @ [x])"
  by (simp add: first_seen_def)

lemma set_first_seen: "set (first_seen xs) = set xs"
  by (simp add: first_seen_def)

lemma title_numbers_snoc: "title_numbers (rs @ [r]) = title_numbers rs @ title_number r"
  by (simp add: title_numbers_def)

lemma title_record_number: "title_record t k r \<Longrightarrow> t \<in> set (title_number r)"
  by (cases r) auto

lemma last_written_None:
  assumes "\<And>r. r \<in> set rs \<Longrightarrow> \<not> P r"
  shows "last_written P rs = None"
proof -
  have "filter P rs = []" using assms by (auto simp: filter_empty_conv)
  then show ?thesis by (simp add: last_written_def)
qed

lemma last_written_Some:
  assumes "r \<in> set rs" "P r" "\<And>r. P r \<Longrightarrow> info_value r \<noteq> None"
  shows "last_written P rs \<noteq> None"
proof -
  have "rev (filter P rs) \<noteq> []" using assms(1,2) by (auto simp: filter_empty_conv)
  then obtain x xs where x: "rev (filter P rs) = x # xs"
    by (cases "rev (filter P rs)") auto
  then have "x \<in> set (filter P rs)" by (metis list.set_intros(1) set_rev)
  then have "P x" by simp
  then show ?thesis using x assms(3) by (simp add: last_written_def)
qed

lemma last_written_title_None:
  assumes "t \<notin> set (title_numbers rs)"
  shows "last_written (title_record t k) rs = None"
proof (rule last_written_None)
  fix r assume r: "r \<in> set rs"
  show "\<not> title_record t k r"
  proof
    assume "title_record t k r"
    then have "t \<in> set (title_number r)" by (rule title_record_number)
    with r assms show False by (auto simp: title_numbers_def)
  qed
qed

subsection \<open>One round of the loop of parseDiscInfo\<close>

lemma body_CINFO:
  "parseDiscInfo_body (da, tm) (InfoOutput CINFO i c v) = Inr (AList.update i v da, tm)"
  by (simp add: parseDiscInfo_body_def Map_set_def)

lemma body_TINFO:
  "parseDiscInfo_body (da, tm) (InfoOutput TINFO i c v) =
   Inr (da, AList.update i
              ((case map_of tm i of None \<Rightarrow> new_title i | Some t \<Rightarrow> t)
                 \<lparr>title_attributes :=
                    AList.update c v
                      (title_attributes
                         (case map_of tm i of None \<Rightarrow> new_title i | Some t \<Rightarrow> t))\<rparr>)
              tm)"
proof (cases "map_of tm i")
  case None
  then have "i \<notin> fst ` set tm" by (simp add: map_of_eq_None_iff)
  then show ?thesis using None
    by (simp add: parseDiscInfo_body_def Map_has_def Map_get_def Map_set_def new_title_def
        update_conv')
next
  case (Some t)
  then have "i \<in> fst ` set tm" by (metis map_of_eq_None_iff option.distinct(1))
  then show ?thesis using Some
    by (simp add: parseDiscInfo_body_def Map_has_def Map_get_def Map_set_def)
qed

lemma body_other:
  "ty \<noteq> TINFO \<Longrightarrow> ty \<noteq> CINFO \<Longrightarrow> parseDiscInfo_body st (InfoOutput ty i c v) = Inr st"
  "parseDiscInfo_body st (MsgOutput a1 a2 a3 a4 a5 a6) = Inr st"
  "parseDiscInfo_body st (ProgressTitle b1 b2 b3 b4) = Inr st"
  "parseDiscInfo_body st (ProgressValue c1 c2 c3) = Inr st"
  "parseDiscInfo_body st (DriveInfo d1 d2 d3 d4 d5 d6) = Inr st"
  "parseDiscInfo_body st (TitleCount n) = Inr st"
  by (cases st; simp add: parseDiscInfo_body_def)+

lemma inv_other:
  assumes "agg_inv rs st" "title_number r = []"
    "\<And>k. \<not> disc_record k r" "\<And>t k. \<not> title_record t k r"
  shows "agg_inv (rs @ [r]) st"
  using assms by (cases st) (simp add: agg_inv_def last_written_snoc title_numbers_snoc)

lemma inv_CINFO:
  assumes "agg_inv rs (da, tm)"
  shows "agg_inv (rs @ [InfoOutput CINFO i c v]) (AList.update i v da, tm)"
  using assms
  by (auto simp add: agg_inv_def last_written_snoc title_numbers_snoc update_conv')

lemma inv_TINFO:
  fixes i :: int and tm :: "(int \<times> TitleInfo) list"
  assumes "agg_inv rs (da, tm)"
  defines "t0 \<equiv> (case map_of tm i of None \<Rightarrow> new_title i | Some t \<Rightarrow> t)"
  shows "agg_inv (rs @ [InfoOutput TINFO i c v])
           (da, AList.update i
                  (t0\<lparr>title_attributes := AList.update c v (title_attributes t0)\<rparr>) tm)"
proof -
  have keys: "map fst tm = first_seen (title_numbers rs)"
    and disc: "\<And>k. map_of da k = last_written (disc_record k) rs"
    and tit: "\<And>j t. map_of tm j = Some t \<Longrightarrow>
           title_id t = j \<and> title_streams t = [] \<and>
           (\<forall>k. map_of (title_attributes t) k = last_written (title_record j k) rs)"
    using assms(1) by (auto simp: agg_inv_def)
  have mem: "i \<in> set (title_numbers rs) \<longleftrightarrow> map_of tm i \<noteq> None"
    using keys set_first_seen [of "title_numbers rs"]
    by (metis map_of_eq_None_iff set_map)
  have t0: "title_id t0 = i \<and> title_streams t0 = [] \<and>
            (\<forall>k. map_of (title_attributes t0) k = last_written (title_record i k) rs)"
  proof (cases "map_of tm i")
    case None
    then have "i \<notin> set (title_numbers rs)" using mem by simp
    then show ?thesis using None
      by (simp add: t0_def new_title_def last_written_title_None)
  next
    case (Some t)
    then show ?thesis using tit [OF Some] by (simp add: t0_def)
  qed
  have k2: "map fst (AList.update i
                       (t0\<lparr>title_attributes := AList.update c v (title_attributes t0)\<rparr>) tm)
            = first_seen (title_numbers (rs @ [InfoOutput TINFO i c v]))"
    using keys mem
    by (auto simp: update_keys title_numbers_snoc first_seen_snoc set_first_seen
        map_of_eq_None_iff)
  show ?thesis
    unfolding agg_inv_def
    apply (simp only: prod.case k2)
    apply (intro conjI allI impI)
    subgoal by (simp add: disc last_written_snoc)
    subgoal by simp
    subgoal for j t using t0 tit [of j t] by (auto simp: update_conv' split: if_splits)
    subgoal for j t using t0 tit [of j t] by (auto simp: update_conv' split: if_splits)
    subgoal for j t k using t0 tit [of j t]
      by (auto simp: update_conv' last_written_snoc split: if_splits)
    done
qed

lemma inv_step:
  assumes "agg_inv rs st"
  shows "\<exists>st'. parseDiscInfo_body st r = Inr st' \<and> agg_inv (rs @ [r]) st'"
proof (cases st)
  case (Pair da tm)
  show ?thesis
  proof (cases r)
    case (InfoOutput ty i c v)
    show ?thesis
    proof (cases ty)
      case CINFO
      then show ?thesis using assms Pair InfoOutput inv_CINFO body_CINFO by auto
    next
      case TINFO
      then show ?thesis
        using assms Pair InfoOutput inv_TINFO [of rs da tm i c v] body_TINFO [of da tm i c v]
        by auto
    next
      case SINFO
      then show ?thesis using assms InfoOutput by (auto simp: body_other intro!: inv_other)
    qed
  qed (use assms in \<open>auto simp: body_other intro!: inv_other\<close>)
qed

subsection \<open>The whole loop\<close>

lemma loop_snoc:
  "parseDiscInfo_loop st (rs @ [r]) =
   (case parseDiscInfo_loop st rs of Inl e \<Rightarrow> Inl e | Inr st' \<Rightarrow> parseDiscInfo_body st' r)"
  by (induction rs arbitrary: st) (auto split: sum.splits)

lemma loop_inv: "\<exists>st. parseDiscInfo_loop ([], []) rs = Inr st \<and> agg_inv rs st"
proof (induction rs rule: rev_induct)
  case Nil
  show ?case by (simp add: agg_inv_def last_written_def first_seen_def title_numbers_def)
next
  case (snoc r rs)
  then obtain st where st: "parseDiscInfo_loop ([], []) rs = Inr st" "agg_inv rs st" by blast
  from inv_step [OF st(2), of r] obtain st' where
    "parseDiscInfo_body st r = Inr st'" "agg_inv (rs @ [r]) st'" by blast
  then show ?case using st(1) by (simp add: loop_snoc)
qed

lemma parseDiscInfo_result:
  "\<exists>d. parseDiscInfo rs = Inr d \<and>
     (\<forall>k. Map_get (disc_attributes d) k = last_written (disc_record k) rs) \<and>
     map title_id (disc_titles d) = first_seen (title_numbers rs) \<and>
     (\<forall>t \<in> set (disc_titles d). title_streams t = [] \<and>
        (\<forall>k. Map_get (title_attributes t) k =
              last_written (title_record (title_id t) k) rs))"
proof -
  obtain da tm where st: "parseDiscInfo_loop ([], []) rs = Inr (da, tm)" "agg_inv rs (da, tm)"
    using loop_inv [of rs] by auto
  have keys: "map fst tm = first_seen (title_numbers rs)"
    and disc: "\<And>k. map_of da k = last_written (disc_record k) rs"
    and tit: "\<And>j t. map_of tm j = Some t \<Longrightarrow>
           title_id t = j \<and> title_streams t = [] \<and>
           (\<forall>k. map_of (title_attributes t) k = last_written (title_record j k) rs)"
    using st(2) by (auto simp: agg_inv_def)
  have dist: "distinct (map fst tm)" by (simp add: keys first_seen_def)
  have entry: "map_of tm j = Some t" if "(j, t) \<in> set tm" for j t
    using that dist by simp
  have ids: "map title_id (map snd tm) = map fst tm"
    using entry tit by (auto simp: map_eq_conv)
  have d: "parseDiscInfo rs = Inr \<lparr>disc_attributes = da, disc_titles = map snd tm\<rparr>"
    using st(1) by (simp add: parseDiscInfo_def Map_values_def)
  have titles: "title_streams t = [] \<and>
        (\<forall>k. Map_get (title_attributes t) k =
              last_written (title_record (title_id t) k) rs)"
    if "t \<in> set (map snd tm)" for t
  proof -
    from that obtain j where "(j, t) \<in> set tm" by auto
    then have "map_of tm j = Some t" by (rule entry)
    from tit [OF this] show ?thesis by (simp add: Map_get_def)
  qed
  show ?thesis
    using d disc ids keys titles by (simp add: Map_get_def)
qed

lemma parseDiscInfo_after_disc_record:
  "\<exists>d. parseDiscInfo (rs @ [InfoOutput CINFO i c v]) = Inr d \<and>
        Map_get (disc_attributes d) i = Some v"
  using parseDiscInfo_result [of "rs @ [InfoOutput CINFO i c v]"]
  by (auto simp: last_written_snoc)

lemma parseDiscInfo_after_title_record:
  "\<exists>d t. parseDiscInfo (rs @ [InfoOutput TINFO i c v]) = Inr d \<and>
        t \<in> set (disc_titles d) \<and> title_id t = i \<and>
        Map_get (title_attributes t) c = Some v"
proof -
  let ?rs = "rs @ [InfoOutput TINFO i c v]"
  obtain d where d: "parseDiscInfo ?rs = Inr d"
    and ids: "map title_id (disc_titles d) = first_seen (title_numbers ?rs)"
    and tit: "\<And>t k. t \<in> set (disc_titles d) \<Longrightarrow>
        Map_get (title_attributes t) k = last_written (title_record (title_id t) k) ?rs"
    using parseDiscInfo_result [of ?rs] by blast
  have "i \<in> set (first_seen (title_numbers ?rs))"
    by (simp add: set_first_seen title_numbers_snoc)
  then have "i \<in> title_id ` set (disc_titles d)"
    using ids by (metis set_map)
  then obtain t where t: "t \<in> set (disc_titles d)" "title_id t = i" by auto
  have "Map_get (title_attributes t) c = Some v"
    using tit [OF t(1), of c] t(2) by (simp add: last_written_snoc)
  then show ?thesis using d t by blast
qed

text \<open>
  C1. For every record sequence parseDiscInfo returns a DiscInfo, and in it: the disc
  attribute collection holds under each key the value of the last disc-scope Info record
  whose \<open>id\<close> is that key, and nothing under a key that is the \<open>id\<close> of no disc-scope record;
  the titles are one per \<open>id\<close> of a title-scope Info record, in the order in which these
  ids first appear, so a title is created when its id is first seen; and the attribute
  collection of each title holds under each key the value of the last title-scope record
  with the title's \<open>id\<close> and with that key as its \<open>code\<close>. The \<open>code\<close> of a disc-scope record
  plays no part. Each record is written: once the aggregator has read a disc-scope record,
  the disc attribute collection holds the record's value under the record's \<open>id\<close>, and once
  it has read a title-scope record, there is a title with the record's \<open>id\<close> whose attribute
  collection holds the record's value under the record's \<open>code\<close>.
\<close>

theorem parseDiscInfo_writes:
  "(\<exists>d. parseDiscInfo rs = Inr d \<and>
     (\<forall>k. Map_get (disc_attributes d) k = last_written (disc_record k) rs) \<and>
     map title_id (disc_titles d) = first_seen (title_numbers rs) \<and>
     (\<forall>t \<in> set (disc_titles d). title_streams t = [] \<and>
        (\<forall>k. Map_get (title_attributes t) k =
              last_written (title_record (title_id t) k) rs)))
   \<and> (\<exists>d. parseDiscInfo (rs @ [InfoOutput CINFO i c v]) = Inr d \<and>
        Map_get (disc_attributes d) i = Some v)
   \<and> (\<exists>d t. parseDiscInfo (rs @ [InfoOutput TINFO i c v]) = Inr d \<and>
        t \<in> set (disc_titles d) \<and> title_id t = i \<and>
        Map_get (title_attributes t) c = Some v)"
  using parseDiscInfo_result [of rs] parseDiscInfo_after_disc_record [of rs i c v]
    parseDiscInfo_after_title_record [of rs i c v]
  by blast

theorem parseDiscInfo_writes_witness:
  "\<exists>d. parseDiscInfo
          [InfoOutput CINFO 1 7 ''DVD'', InfoOutput TINFO 4 2 ''x'', InfoOutput TINFO 4 2 ''y'']
        = Inr d \<and>
     Map_get (disc_attributes d) 1 = Some ''DVD'' \<and>
     Map_get (disc_attributes d) 7 = None \<and>
     map title_id (disc_titles d) = [4] \<and>
     Map_get (title_attributes (hd (disc_titles d))) 2 = Some ''y''"
proof -
  let ?rs = "[InfoOutput CINFO 1 7 ''DVD'', InfoOutput TINFO 4 2 ''x'',
              InfoOutput TINFO 4 2 ''y'']"
  obtain d where d: "parseDiscInfo ?rs = Inr d"
    and disc: "\<And>k. Map_get (disc_attributes d) k = last_written (disc_record k) ?rs"
    and ids: "map title_id (disc_titles d) = first_seen (title_numbers ?rs)"
    and tit: "\<And>t k. t \<in> set (disc_titles d) \<Longrightarrow>
        Map_get (title_attributes t) k = last_written (title_record (title_id t) k) ?rs"
    using parseDiscInfo_writes [of ?rs 0 0 "[]"] by blast
  have ids': "map title_id (disc_titles d) = [4]"
    using ids by (simp add: first_seen_def title_numbers_def)
  then obtain t where t: "disc_titles d = [t]" "title_id t = 4" by auto
  have "Map_get (title_attributes t) 2 = Some ''y''"
    using tit [of t 2] t by (simp add: last_written_def)
  moreover have "Map_get (disc_attributes d) 1 = Some ''DVD''"
    using disc [of 1] by (simp add: last_written_def)
  moreover have "Map_get (disc_attributes d) 7 = None"
    using disc [of 7] by (simp add: last_written_def)
  ultimately show ?thesis using d ids' t by simp
qed

subsection \<open>Stream-scope records\<close>

lemma loop_drop_streams:
  "parseDiscInfo_loop st (filter (\<lambda>r. \<not> stream_record r) rs) = parseDiscInfo_loop st rs"
proof (induction rs arbitrary: st)
  case Nil
  show ?case by simp
next
  case (Cons r rs)
  show ?case
  proof (cases "stream_record r")
    case True
    then obtain i c v where "r = InfoOutput SINFO i c v" by (cases r) auto
    then show ?thesis using Cons.IH by (simp add: body_other)
  next
    case False
    then show ?thesis using Cons.IH by (simp split: sum.splits)
  qed
qed

text \<open>
  C9. For every record sequence parseDiscInfo returns a DiscInfo (it does not fail), and
  it is the DiscInfo that parseDiscInfo returns for the sequence with the stream-scope Info
  records removed: the same disc attribute collection and the same titles, with the same
  attribute collections, in the same order.
\<close>

theorem parseDiscInfo_ignores_streams:
  "\<exists>d. parseDiscInfo rs = Inr d \<and>
        parseDiscInfo (filter (\<lambda>r. \<not> stream_record r) rs) = Inr d"
  using parseDiscInfo_result [of rs] by (auto simp: parseDiscInfo_def loop_drop_streams)

subsection \<open>The title count\<close>

lemma find_filter: "find P xs = (case filter P xs of [] \<Rightarrow> None | x # _ \<Rightarrow> Some x)"
  by (induction xs) auto

text \<open>
  C8 (as amended). For every record sequence getTitleCount returns the count of the first
  TitleCount record of the sequence, which is the only one when there is exactly one, and
  the no-value signal when the sequence has no TitleCount record.
\<close>

theorem getTitleCount_first:
  "getTitleCount rs = (case filter is_TCOUT rs of [] \<Rightarrow> None | r # _ \<Rightarrow> title_count r)"
  by (auto simp: getTitleCount_def find_filter split: list.splits RobotOutput.splits)

text \<open>
  C8 as the specification states it fails: with two TitleCount records of different counts
  the accessor returns the first count, not the last.
\<close>

theorem getTitleCount_last_counterexample:
  "getTitleCount [TitleCount 1, TitleCount 2] = Some 1
   \<and> getTitleCount [TitleCount 1, TitleCount 2] \<noteq> Some 2"
  by (simp add: getTitleCount_def)

subsection \<open>The two aggregators\<close>

lemma adv_body:
  "\<exists>st'. parseDiscInfoAdvanced_body st r = Inr st' \<and>
     fst st' = (case r of InfoOutput ty i c v \<Rightarrow>
                  if ty = CINFO then AList.update c v (fst st) else fst st
                | _ \<Rightarrow> fst st)"
proof -
  obtain da tm sm where st: "st = (da, tm, sm)" by (cases st) auto
  show ?thesis
  proof (cases r)
    case (InfoOutput ty i c v)
    show ?thesis unfolding st InfoOutput
      by (cases ty)
         (auto simp: parseDiscInfoAdvanced_body_def Map_has_def Map_get_def Map_set_def
            update_conv' map_of_eq_None_iff Let_def split: option.splits)
  qed (simp_all add: st parseDiscInfoAdvanced_body_def)
qed

lemma adv_loop_snoc:
  "parseDiscInfoAdvanced_loop st (rs @ [r]) =
   (case parseDiscInfoAdvanced_loop st rs of Inl e \<Rightarrow> Inl e
    | Inr st' \<Rightarrow> parseDiscInfoAdvanced_body st' r)"
  by (induction rs arbitrary: st) (auto split: sum.splits)

lemma adv_loop_disc:
  "\<exists>st. parseDiscInfoAdvanced_loop ([], [], []) rs = Inr st \<and>
     (\<forall>k. map_of (fst st) k = last_written (code_record k) rs)"
proof (induction rs rule: rev_induct)
  case Nil
  show ?case by (simp add: last_written_def)
next
  case (snoc r rs)
  then obtain st where st: "parseDiscInfoAdvanced_loop ([], [], []) rs = Inr st"
    "\<And>k. map_of (fst st) k = last_written (code_record k) rs" by blast
  from adv_body [of st r] obtain st' where st': "parseDiscInfoAdvanced_body st r = Inr st'"
    "fst st' = (case r of InfoOutput ty i c v \<Rightarrow>
                  if ty = CINFO then AList.update c v (fst st) else fst st
                | _ \<Rightarrow> fst st)" by blast
  have "map_of (fst st') k = last_written (code_record k) (rs @ [r])" for k
    using st(2) [of k] st'(2)
    by (cases r) (auto simp: last_written_snoc update_conv')
  then show ?case using st(1) st'(1) by (simp add: adv_loop_snoc)
qed

lemma parseDiscInfoAdvanced_disc:
  "\<exists>d. parseDiscInfoAdvanced rs = Inr d \<and>
     (\<forall>k. Map_get (disc_attributes d) k = last_written (code_record k) rs)"
proof -
  obtain da tm sm where "parseDiscInfoAdvanced_loop ([], [], []) rs = Inr (da, tm, sm)"
    "\<And>k. map_of (fst (da, tm, sm)) k = last_written (code_record k) rs"
    using adv_loop_disc [of rs] by (metis prod_cases3)
  then show ?thesis by (simp add: parseDiscInfoAdvanced_def Map_get_def)
qed

text \<open>
  C10 (as amended). The two aggregators are not equivalent on disc attributes: for every
  record sequence that contains a disc-scope Info record whose \<open>id\<close> is the \<open>code\<close> of no
  disc-scope Info record of the sequence (so its own \<open>code\<close> differs from its \<open>id\<close>), both
  return a DiscInfo, parseDiscInfo has a value under that \<open>id\<close>, parseDiscInfoAdvanced has
  none, and the two disc attribute collections differ. parseDiscInfo keys the disc attributes
  by \<open>id\<close> and parseDiscInfoAdvanced by \<open>code\<close>.
\<close>

theorem aggregators_differ:
  assumes "InfoOutput CINFO i c v \<in> set rs" and "\<forall>r \<in> set rs. \<not> code_record i r"
  shows "\<exists>d d'. parseDiscInfo rs = Inr d \<and> parseDiscInfoAdvanced rs = Inr d' \<and>
           Map_get (disc_attributes d) i \<noteq> None \<and> Map_get (disc_attributes d') i = None \<and>
           disc_attributes d \<noteq> disc_attributes d'"
proof -
  obtain d where d: "parseDiscInfo rs = Inr d"
    "\<And>k. Map_get (disc_attributes d) k = last_written (disc_record k) rs"
    using parseDiscInfo_result [of rs] by blast
  obtain d' where d': "parseDiscInfoAdvanced rs = Inr d'"
    "\<And>k. Map_get (disc_attributes d') k = last_written (code_record k) rs"
    using parseDiscInfoAdvanced_disc [of rs] by blast
  have "info_value r \<noteq> None" if "disc_record i r" for r
    using that by (cases r) auto
  then have 1: "Map_get (disc_attributes d) i \<noteq> None"
    using last_written_Some [OF assms(1), of "disc_record i"] by (simp add: d(2))
  have 2: "Map_get (disc_attributes d') i = None"
    using assms(2) by (simp add: d'(2) last_written_None)
  from 1 2 have "disc_attributes d \<noteq> disc_attributes d'" by auto
  with d(1) d'(1) 1 2 show ?thesis by blast
qed

theorem aggregators_differ_witness:
  "\<exists>d d'. parseDiscInfo [InfoOutput CINFO 1 0 ''DVD'', TitleCount 2] = Inr d \<and>
     parseDiscInfoAdvanced [InfoOutput CINFO 1 0 ''DVD'', TitleCount 2] = Inr d' \<and>
     disc_attributes d \<noteq> disc_attributes d'"
proof -
  have a: "InfoOutput CINFO 1 0 ''DVD'' \<in> set [InfoOutput CINFO 1 0 ''DVD'', TitleCount 2]"
    by simp
  have b: "\<forall>r \<in> set [InfoOutput CINFO 1 0 ''DVD'', TitleCount 2]. \<not> code_record 1 r"
    by simp
  from aggregators_differ [OF a b] show ?thesis by blast
qed

text \<open>
  C10 as the specification states it fails: the sequence below contains a disc-scope Info
  record with \<open>id\<close> 1 and \<open>code\<close> 2, and the two aggregators return the same disc attribute
  collection for it.
\<close>

theorem aggregators_agree_counterexample:
  "InfoOutput CINFO 1 2 ''a'' \<in>
     set [InfoOutput CINFO 1 1 ''a'', InfoOutput CINFO 2 2 ''a'', InfoOutput CINFO 1 2 ''a'']
   \<and> parseDiscInfo
       [InfoOutput CINFO 1 1 ''a'', InfoOutput CINFO 2 2 ''a'', InfoOutput CINFO 1 2 ''a'']
     = Inr \<lparr>disc_attributes = [(1, ''a''), (2, ''a'')], disc_titles = []\<rparr>
   \<and> parseDiscInfoAdvanced
       [InfoOutput CINFO 1 1 ''a'', InfoOutput CINFO 2 2 ''a'', InfoOutput CINFO 1 2 ''a'']
     = Inr \<lparr>disc_attributes = [(1, ''a''), (2, ''a'')], disc_titles = []\<rparr>"
  by (simp add: parseDiscInfo_def parseDiscInfoAdvanced_def parseDiscInfo_body_def
      parseDiscInfoAdvanced_body_def Map_set_def Map_values_def)

section \<open>Properties of the decoder\<close>

subsection \<open>The line and its tag\<close>

lemma parseRobotLine_with_tag:
  assumes "line_tag line = Some tag"
  shows "parseRobotLine_with p line =
         (case parseRobotLine_switch p tag (line_payload line) of
            Inl e \<Rightarrow> None
          | Inr r \<Rightarrow> r)"
proof -
  have c: "colon \<in> set (trim line)" and tag: "tag = takeWhile (\<lambda>c. c \<noteq> colon) (trim line)"
    using assms by (auto simp: line_tag_def split: if_splits)
  then have ne: "trim line \<noteq> []" by auto
  have t: "take (length (takeWhile (\<lambda>c. c \<noteq> colon) (trim line))) (trim line) = tag"
    by (simp add: tag takeWhile_eq_take [symmetric])
  have d: "drop (Suc (length (takeWhile (\<lambda>c. c \<noteq> colon) (trim line)))) (trim line)
           = line_payload line"
    by (simp add: line_payload_def dropWhile_eq_drop drop_Suc tl_drop)
  show ?thesis
    using c ne t d by (simp add: parseRobotLine_with_def indexOf_def Let_def)
qed

subsection \<open>The switch, tag by tag\<close>

lemma switch_MSG:
  "parseRobotLine_switch p ''MSG'' rest =
     (let parts = parseRobotValues rest in
         if length parts < 5 then Inr None
         else
           try_bind (p (parts ! 0)) (\<lambda>code.
           try_bind (p (parts ! 1)) (\<lambda>flags.
           try_bind (p (parts ! 2)) (\<lambda>count.
             case (code, flags, count) of
               (Some code, Some flags, Some count) \<Rightarrow>
                 Inr (Some (MsgOutput code flags count (parts ! 3) (parts ! 4) (drop 5 parts)))
             | _ \<Rightarrow> Inr None))))"
  by (simp add: parseRobotLine_switch_def)

lemma switch_PRG:
  "tag = ''PRGC'' \<or> tag = ''PRGT'' \<Longrightarrow>
   parseRobotLine_switch p tag rest =
        (let parts = parseRobotValues rest in
         if length parts < 3 then Inr None
         else
           try_bind (p (parts ! 0)) (\<lambda>code.
           try_bind (p (parts ! 1)) (\<lambda>id'.
             case (code, id') of
               (Some code, Some id') \<Rightarrow>
                 Inr (Some (ProgressTitle (if tag = ''PRGC'' then PRGC else PRGT)
                              code id' (parts ! 2)))
             | _ \<Rightarrow> Inr None)))"
  by (elim disjE) (simp_all add: parseRobotLine_switch_def)

lemma switch_PRGV:
  "parseRobotLine_switch p ''PRGV'' rest =
        (let parts = parseRobotValues rest in
         if length parts < 3 then Inr None
         else
           try_bind (p (parts ! 0)) (\<lambda>current.
           try_bind (p (parts ! 1)) (\<lambda>total'.
           try_bind (p (parts ! 2)) (\<lambda>max'.
             case (current, total', max') of
               (Some current, Some total', Some max') \<Rightarrow>
                 Inr (Some (ProgressValue current total' max'))
             | _ \<Rightarrow> Inr None))))"
  by (simp add: parseRobotLine_switch_def)

lemma switch_DRV:
  "parseRobotLine_switch p ''DRV'' rest =
        (let parts = parseRobotValues rest in
         if length parts < 6 then Inr None
         else
           try_bind (p (parts ! 0)) (\<lambda>index.
           try_bind (p (parts ! 3)) (\<lambda>flags.
             case (index, flags) of
               (Some index, Some flags) \<Rightarrow>
                 Inr (Some (DriveInfo index (parts ! 1 = ''1'') (parts ! 2 = ''1'') flags
                              (parts ! 4) (parts ! 5)))
             | _ \<Rightarrow> Inr None)))"
  by (simp add: parseRobotLine_switch_def)

lemma switch_TCOUT:
  "parseRobotLine_switch p ''TCOUT'' rest =
        (let parts = parseRobotValues rest in
         if length parts < 1 then Inr None
         else
           try_bind (p (parts ! 0)) (\<lambda>count.
             case count of
               Some count \<Rightarrow> Inr (Some (TitleCount count))
             | None \<Rightarrow> Inr None))"
  by (simp add: parseRobotLine_switch_def)

lemma switch_INFO:
  "tag = ''CINFO'' \<or> tag = ''TINFO'' \<or> tag = ''SINFO'' \<Longrightarrow>
   parseRobotLine_switch p tag rest =
        (let parts = parseRobotValues rest in
         if length parts < 3 then Inr None
         else
           try_bind (p (parts ! 0)) (\<lambda>id'.
           try_bind (p (parts ! 1)) (\<lambda>code.
             case (id', code) of
               (Some id', Some code) \<Rightarrow>
                 Inr (Some (InfoOutput
                              (if tag = ''CINFO'' then CINFO
                               else if tag = ''TINFO'' then TINFO else SINFO)
                              id' code (parts ! 2)))
             | _ \<Rightarrow> Inr None)))"
  by (elim disjE) (simp_all add: parseRobotLine_switch_def)

lemma switch_unknown:
  "min_fields tag = None \<Longrightarrow> parseRobotLine_switch p tag rest = Inr None"
  by (simp add: parseRobotLine_switch_def min_fields_def split: if_splits)

lemma tag_cases:
  assumes "min_fields tag = Some n"
  obtains "tag = ''MSG''" "n = 5" | "tag = ''PRGC'' \<or> tag = ''PRGT''" "n = 3"
    | "tag = ''PRGV''" "n = 3" | "tag = ''DRV''" "n = 6" | "tag = ''TCOUT''" "n = 1"
    | "tag = ''CINFO'' \<or> tag = ''TINFO'' \<or> tag = ''SINFO''" "n = 3"
  using assms unfolding min_fields_def by (auto split: if_splits)

lemma switch_rejects_iff:
  assumes "min_fields tag = Some n" "n \<le> length (parseRobotValues rest)"
  shows "(parseRobotLine_switch parseInt_completion tag rest = Inr None) \<longleftrightarrow>
         (\<exists>k \<in> set (int_positions tag). parseInt (parseRobotValues rest ! k) = None)"
  using assms(1)
proof (cases rule: tag_cases)
  case 1
  then show ?thesis using assms(2)
    by (auto simp: switch_MSG parseInt_completion_def try_bind_def int_positions_def Let_def
        split: option.splits)
next
  case 2
  have ip: "int_positions tag = [0, 1]" using 2(1) by (auto simp: int_positions_def)
  show ?thesis using assms(2) 2(2)
    by (auto simp: switch_PRG [OF 2(1)] ip parseInt_completion_def try_bind_def Let_def
        split: option.splits)
next
  case 3
  then show ?thesis using assms(2)
    by (auto simp: switch_PRGV parseInt_completion_def try_bind_def int_positions_def Let_def
        split: option.splits)
next
  case 4
  then show ?thesis using assms(2)
    by (auto simp: switch_DRV parseInt_completion_def try_bind_def int_positions_def Let_def
        split: option.splits)
next
  case 5
  then show ?thesis using assms(2)
    by (auto simp: switch_TCOUT parseInt_completion_def try_bind_def int_positions_def Let_def
        split: option.splits)
next
  case 6
  have ip: "int_positions tag = [0, 1]" using 6(1) by (auto simp: int_positions_def)
  show ?thesis using assms(2) 6(2)
    by (auto simp: switch_INFO [OF 6(1)] ip parseInt_completion_def try_bind_def Let_def
        split: option.splits)
qed

lemma switch_never_throws:
  "\<exists>res. parseRobotLine_switch parseInt_completion tag rest = Inr res"
proof (cases "min_fields tag")
  case None
  then show ?thesis by (simp add: switch_unknown)
next
  case (Some n)
  then show ?thesis
  proof (cases rule: tag_cases)
    case 1
    then show ?thesis
      by (simp add: switch_MSG parseInt_completion_def try_bind_def Let_def
          split: option.splits)
  next
    case 2
    then show ?thesis
      by (simp add: switch_PRG parseInt_completion_def try_bind_def Let_def
          split: option.splits)
  next
    case 3
    then show ?thesis
      by (simp add: switch_PRGV parseInt_completion_def try_bind_def Let_def
          split: option.splits)
  next
    case 4
    then show ?thesis
      by (simp add: switch_DRV parseInt_completion_def try_bind_def Let_def
          split: option.splits)
  next
    case 5
    then show ?thesis
      by (simp add: switch_TCOUT parseInt_completion_def try_bind_def Let_def
          split: option.splits)
  next
    case 6
    then show ?thesis
      by (simp add: switch_INFO parseInt_completion_def try_bind_def Let_def
          split: option.splits)
  qed
qed

lemma parseRobotLine_rejects_iff:
  assumes "line_tag line = Some tag" "min_fields tag = Some n" "n \<le> length (line_fields line)"
  shows "parseRobotLine line = None \<longleftrightarrow>
         (\<exists>k \<in> set (int_positions tag). parseInt (line_fields line ! k) = None)"
proof -
  obtain res where
    res: "parseRobotLine_switch parseInt_completion tag (line_payload line) = Inr res"
    using switch_never_throws by blast
  have "parseRobotLine line = res"
    using res by (simp add: parseRobotLine_def parseRobotLine_with_tag [OF assms(1)])
  then show ?thesis
    using switch_rejects_iff [OF assms(2), of "line_payload line"] assms(3) res
    by (simp add: line_fields_def)
qed

subsection \<open>parseInt on base-10 numerals\<close>

lemma digit_facts:
  assumes "c \<in> set ''0123456789''"
  shows "isWhiteSpace c = False" "(c = CHR ''-'') = False" "(c = CHR ''+'') = False"
    "(c = CHR ''x'') = False" "(c = CHR ''X'') = False" "isRadixDigit 10 c = True"
  using assms by (auto simp: isWhiteSpace_def isRadixDigit_def digitValue_def)

lemma takeWhile_digits:
  "list_all (\<lambda>c. c \<in> set ''0123456789'') d \<Longrightarrow> takeWhile (isRadixDigit 10) d = d"
  using digit_facts(6) by (auto simp: list_all_iff takeWhile_eq_all_conv)

lemma digits_no_hex_prefix:
  assumes "list_all (\<lambda>c. c \<in> set ''0123456789'') d"
  shows "(2 \<le> length d \<and> (take 2 d = ''0x'' \<or> take 2 d = ''0X'')) = False"
proof (cases d)
  case Nil
  then show ?thesis by simp
next
  case (Cons c cs)
  show ?thesis
  proof (cases cs)
    case Nil
    then show ?thesis using Cons by simp
  next
    case (Cons c2 cs2)
    then have "c2 \<in> set ''0123456789''" using assms \<open>d = c # cs\<close> by simp
    from digit_facts(4,5) [OF this] show ?thesis using Cons \<open>d = c # cs\<close> by simp
  qed
qed

lemma parseInt_magnitude_digits:
  assumes "d \<noteq> []" "list_all (\<lambda>c. c \<in> set ''0123456789'') d"
  shows "parseInt_magnitude d = Some (mathInt 10 d)"
  unfolding parseInt_magnitude_def Let_def digits_no_hex_prefix [OF assms(2)] if_False
    takeWhile_digits [OF assms(2)]
  using assms(1) by simp

lemma parseInt_digits:
  assumes "d \<noteq> []" "list_all (\<lambda>c. c \<in> set ''0123456789'') d"
  shows "parseInt d = Some (int (mathInt 10 d))"
proof -
  obtain c cs where d: "d = c # cs" using assms(1) by (cases d) auto
  have c: "c \<in> set ''0123456789''" using assms(2) d by simp
  have m: "parseInt_magnitude (c # cs) = Some (mathInt 10 (c # cs))"
    using parseInt_magnitude_digits [OF assms] d by simp
  show ?thesis
    unfolding d parseInt_def
    by (simp add: digit_facts(1,2,3) [OF c] m)
qed

lemma parseInt_minus_digits:
  assumes "d \<noteq> []" "list_all (\<lambda>c. c \<in> set ''0123456789'') d"
  shows "parseInt (CHR ''-'' # d) = Some (- int (mathInt 10 d))"
  unfolding parseInt_def
  by (simp add: isWhiteSpace_def parseInt_magnitude_digits [OF assms])

lemma base10_parseInt:
  assumes "base10_numeral s"
  shows "parseInt s \<noteq> None"
proof (cases "s \<noteq> [] \<and> hd s = CHR ''-''")
  case True
  then obtain t where s: "s = CHR ''-'' # t" by (cases s) auto
  have "t \<noteq> []" "list_all (\<lambda>c. c \<in> set ''0123456789'') t"
    using assms unfolding s base10_numeral_def Let_def by simp_all
  from parseInt_minus_digits [OF this] show ?thesis unfolding s by simp
next
  case False
  then have "s \<noteq> [] \<and> list_all (\<lambda>c. c \<in> set ''0123456789'') s"
    using assms unfolding base10_numeral_def Let_def by presburger
  then show ?thesis using parseInt_digits [of s] by simp
qed

subsection \<open>When parseInt gives NaN\<close>

lemma char_eq_code: "(c = d) = (of_char c = (of_char d :: nat))"
  by simp

lemma decimal_digit_iff: "isRadixDigit 10 c = (c \<in> set ''0123456789'')"
proof -
  define n where "n = (of_char c :: nat)"
  have "(c \<in> set ''0123456789'') = (n = 48 \<or> n = 49 \<or> n = 50 \<or> n = 51 \<or> n = 52 \<or> n = 53
          \<or> n = 54 \<or> n = 55 \<or> n = 56 \<or> n = 57)"
    unfolding n_def by (simp add: char_eq_code [of c])
  moreover have "isRadixDigit 10 c = (48 \<le> n \<and> n \<le> 57)"
    unfolding n_def isRadixDigit_def digitValue_def Let_def by auto
  ultimately show ?thesis by presburger
qed

lemma hex_digit_iff: "isRadixDigit 16 c = (c \<in> set ''0123456789abcdefABCDEF'')"
proof -
  define n where "n = (of_char c :: nat)"
  have "(c \<in> set ''0123456789abcdefABCDEF'') =
        (n = 48 \<or> n = 49 \<or> n = 50 \<or> n = 51 \<or> n = 52 \<or> n = 53
          \<or> n = 54 \<or> n = 55 \<or> n = 56 \<or> n = 57
          \<or> n = 97 \<or> n = 98 \<or> n = 99 \<or> n = 100 \<or> n = 101 \<or> n = 102
          \<or> n = 65 \<or> n = 66 \<or> n = 67 \<or> n = 68 \<or> n = 69 \<or> n = 70)"
    unfolding n_def by (simp add: char_eq_code [of c])
  moreover have "isRadixDigit 16 c =
        ((48 \<le> n \<and> n \<le> 57) \<or> (97 \<le> n \<and> n \<le> 102) \<or> (65 \<le> n \<and> n \<le> 70))"
    unfolding n_def isRadixDigit_def digitValue_def Let_def by auto
  ultimately show ?thesis by presburger
qed

lemma parseInt_magnitude_None_iff:
  "parseInt_magnitude u = None \<longleftrightarrow>
   \<not> (if 2 \<le> length u \<and> (take 2 u = ''0x'' \<or> take 2 u = ''0X'')
      then 3 \<le> length u \<and> u ! 2 \<in> set ''0123456789abcdefABCDEF''
      else u \<noteq> [] \<and> hd u \<in> set ''0123456789'')"
proof (cases "2 \<le> length u \<and> (take 2 u = ''0x'' \<or> take 2 u = ''0X'')")
  case True
  have h: "hd (drop 2 u) = u ! 2" if "3 \<le> length u"
    using that by (simp add: hd_drop_conv_nth)
  have e: "drop 2 u = [] \<longleftrightarrow> \<not> 3 \<le> length u" using True by auto
  have "parseInt_magnitude u = None \<longleftrightarrow> takeWhile (isRadixDigit 16) (drop 2 u) = []"
    unfolding parseInt_magnitude_def Let_def if_P [OF True] by simp
  also have "\<dots> \<longleftrightarrow> drop 2 u = [] \<or> \<not> isRadixDigit 16 (hd (drop 2 u))"
    by (rule takeWhile_eq_Nil_iff)
  also have "\<dots> \<longleftrightarrow> \<not> (3 \<le> length u \<and> u ! 2 \<in> set ''0123456789abcdefABCDEF'')"
    using e h hex_digit_iff by metis
  finally show ?thesis unfolding if_P [OF True] .
next
  case False
  have "parseInt_magnitude u = None \<longleftrightarrow> takeWhile (isRadixDigit 10) u = []"
    unfolding parseInt_magnitude_def Let_def if_not_P [OF False] by simp
  also have "\<dots> \<longleftrightarrow> u = [] \<or> \<not> isRadixDigit 10 (hd u)"
    by (rule takeWhile_eq_Nil_iff)
  also have "\<dots> \<longleftrightarrow> \<not> (u \<noteq> [] \<and> hd u \<in> set ''0123456789'')"
    using decimal_digit_iff by metis
  finally show ?thesis unfolding if_not_P [OF False] .
qed

lemma parseInt_None_iff: "parseInt s = None \<longleftrightarrow> \<not> numeric_prefix s"
proof -
  define t where "t = dropWhile isWhiteSpace s"
  define u where "u = (if t \<noteq> [] \<and> (hd t = CHR ''+'' \<or> hd t = CHR ''-'') then tl t else t)"
  have "parseInt s = None \<longleftrightarrow> parseInt_magnitude u = None"
    unfolding parseInt_def Let_def t_def [symmetric] u_def [symmetric]
    by (simp split: option.splits)
  moreover have "numeric_prefix s \<longleftrightarrow>
     (if 2 \<le> length u \<and> (take 2 u = ''0x'' \<or> take 2 u = ''0X'')
      then 3 \<le> length u \<and> u ! 2 \<in> set ''0123456789abcdefABCDEF''
      else u \<noteq> [] \<and> hd u \<in> set ''0123456789'')"
    unfolding numeric_prefix_def Let_def t_def [symmetric] u_def [symmetric] ..
  ultimately show ?thesis by (simp only: parseInt_magnitude_None_iff [of u])
qed

subsection \<open>The integer fields of an accepted line\<close>

lemma switch_ints:
  assumes "min_fields tag = Some n" "n \<le> length (parseRobotValues rest)"
    "parseRobotLine_switch parseInt_completion tag rest = Inr (Some r)"
  shows "map Some (record_ints r) =
         map (\<lambda>k. parseInt (parseRobotValues rest ! k)) (int_positions tag)"
  using assms(1)
proof (cases rule: tag_cases)
  case 1
  then show ?thesis using assms(2,3)
    by (auto simp: switch_MSG parseInt_completion_def try_bind_def int_positions_def Let_def
        split: option.splits)
next
  case 2
  have ip: "int_positions tag = [0, 1]" using 2(1) by (auto simp: int_positions_def)
  show ?thesis using assms(2,3) 2(2)
    by (auto simp: switch_PRG [OF 2(1)] ip parseInt_completion_def try_bind_def Let_def
        split: option.splits)
next
  case 3
  then show ?thesis using assms(2,3)
    by (auto simp: switch_PRGV parseInt_completion_def try_bind_def int_positions_def Let_def
        split: option.splits)
next
  case 4
  then show ?thesis using assms(2,3)
    by (auto simp: switch_DRV parseInt_completion_def try_bind_def int_positions_def Let_def
        split: option.splits)
next
  case 5
  then show ?thesis using assms(2,3)
    by (auto simp: switch_TCOUT parseInt_completion_def try_bind_def int_positions_def Let_def
        split: option.splits if_splits)
next
  case 6
  have ip: "int_positions tag = [0, 1]" using 6(1) by (auto simp: int_positions_def)
  show ?thesis using assms(2,3) 6(2)
    by (auto simp: switch_INFO [OF 6(1)] ip parseInt_completion_def try_bind_def Let_def
        split: option.splits)
qed

lemma parseRobotLine_ints:
  assumes "line_tag line = Some tag" "min_fields tag = Some n" "n \<le> length (line_fields line)"
    "parseRobotLine line = Some r"
  shows "map Some (record_ints r) =
         map (\<lambda>k. parseInt (line_fields line ! k)) (int_positions tag)"
proof -
  obtain res where
    res: "parseRobotLine_switch parseInt_completion tag (line_payload line) = Inr res"
    using switch_never_throws by blast
  have "parseRobotLine line = res"
    using res by (simp add: parseRobotLine_def parseRobotLine_with_tag [OF assms(1)])
  then have "parseRobotLine_switch parseInt_completion tag (line_payload line) = Inr (Some r)"
    using res assms(4) by simp
  from switch_ints [OF assms(2) _ this] assms(3) show ?thesis
    by (simp add: line_fields_def)
qed

subsection \<open>Fields that do not parse\<close>

text \<open>
  C3 (as amended). For every input line whose tag is recognised and whose field count meets
  the minimum of the tag: the decoder rejects the line exactly when \<open>parseInt\<close> gives NaN on
  some field in an integer position; \<open>parseInt\<close> gives NaN on a field exactly when the field
  has no numeric prefix, so the decoder rejects the line exactly when some field in an
  integer position has no numeric prefix; when the decoder does not reject the line, the
  integer fields of the record it returns are the results of \<open>parseInt\<close> on the fields in
  the integer positions, in order; and a rejected line has a field in an integer position
  that is not a base-10 integer numeral. The line \<open>TCOUT:5x\<close> decodes to the TitleCount
  record with count 5.
\<close>

theorem parseRobotLine_rejects_iff_NaN:
  assumes "line_tag line = Some tag" "min_fields tag = Some n" "n \<le> length (line_fields line)"
  shows "(parseRobotLine line = None \<longleftrightarrow>
            (\<exists>k \<in> set (int_positions tag). parseInt (line_fields line ! k) = None))
         \<and> (\<forall>s. parseInt s = None \<longleftrightarrow> \<not> numeric_prefix s)
         \<and> (parseRobotLine line = None \<longleftrightarrow>
            (\<exists>k \<in> set (int_positions tag). \<not> numeric_prefix (line_fields line ! k)))
         \<and> (\<forall>r. parseRobotLine line = Some r \<longrightarrow>
            map Some (record_ints r) =
            map (\<lambda>k. parseInt (line_fields line ! k)) (int_positions tag))
         \<and> (parseRobotLine line = None \<longrightarrow>
            (\<exists>k \<in> set (int_positions tag). \<not> base10_numeral (line_fields line ! k)))
         \<and> parseRobotLine ''TCOUT:5x'' = Some (TitleCount 5)"
proof -
  have a: "parseRobotLine line = None \<longleftrightarrow>
           (\<exists>k \<in> set (int_positions tag). parseInt (line_fields line ! k) = None)"
    by (rule parseRobotLine_rejects_iff [OF assms])
  have b: "\<forall>s. parseInt s = None \<longleftrightarrow> \<not> numeric_prefix s"
    by (simp add: parseInt_None_iff)
  have c: "parseRobotLine line = None \<longleftrightarrow>
           (\<exists>k \<in> set (int_positions tag). \<not> numeric_prefix (line_fields line ! k))"
    using a by (simp add: parseInt_None_iff)
  have d: "\<forall>r. parseRobotLine line = Some r \<longrightarrow>
            map Some (record_ints r) =
            map (\<lambda>k. parseInt (line_fields line ! k)) (int_positions tag)"
    using parseRobotLine_ints [OF assms] by blast
  have e: "parseRobotLine line = None \<longrightarrow>
           (\<exists>k \<in> set (int_positions tag). \<not> base10_numeral (line_fields line ! k))"
    using a base10_parseInt by blast
  have f: "parseRobotLine ''TCOUT:5x'' = Some (TitleCount 5)"
    by code_simp
  from a b c d e f show ?thesis by blast
qed

theorem parseRobotLine_rejects_iff_NaN_witness:
  "line_tag ''TCOUT:x5'' = Some ''TCOUT'' \<and> min_fields ''TCOUT'' = Some 1
   \<and> line_fields ''TCOUT:x5'' = [''x5''] \<and> \<not> numeric_prefix ''x5''
   \<and> parseRobotLine ''TCOUT:x5'' = None
   \<and> line_tag ''PRGV:7,0x1F,-3z'' = Some ''PRGV'' \<and> min_fields ''PRGV'' = Some 3
   \<and> line_fields ''PRGV:7,0x1F,-3z'' = [''7'', ''0x1F'', ''-3z'']
   \<and> (\<exists>r. parseRobotLine ''PRGV:7,0x1F,-3z'' = Some r \<and> record_ints r = [7, 31, - 3])"
proof -
  have t: "line_tag ''TCOUT:x5'' = Some ''TCOUT''" by code_simp
  have m: "min_fields ''TCOUT'' = Some 1" by code_simp
  have f: "line_fields ''TCOUT:x5'' = [''x5'']" by code_simp
  have n: "1 \<le> length (line_fields ''TCOUT:x5'')" by (simp add: f)
  have p: "\<not> numeric_prefix ''x5''" by code_simp
  have i: "int_positions ''TCOUT'' = [0]" by code_simp
  have rej: "parseRobotLine ''TCOUT:x5'' = None"
    using parseRobotLine_rejects_iff_NaN [OF t m n] p by (simp add: i f)
  have t2: "line_tag ''PRGV:7,0x1F,-3z'' = Some ''PRGV''" by code_simp
  have m2: "min_fields ''PRGV'' = Some 3" by code_simp
  have f2: "line_fields ''PRGV:7,0x1F,-3z'' = [''7'', ''0x1F'', ''-3z'']" by code_simp
  have n2: "3 \<le> length (line_fields ''PRGV:7,0x1F,-3z'')" by (simp add: f2)
  have i2: "int_positions ''PRGV'' = [0, 1, 2]" by code_simp
  have p2: "numeric_prefix ''7''" "numeric_prefix ''0x1F''" "numeric_prefix ''-3z''"
    by code_simp+
  have v2: "parseInt ''7'' = Some 7" "parseInt ''0x1F'' = Some 31" "parseInt ''-3z'' = Some (- 3)"
    by code_simp+
  note th2 = parseRobotLine_rejects_iff_NaN [OF t2 m2 n2]
  have "parseRobotLine ''PRGV:7,0x1F,-3z'' \<noteq> None"
    using th2 p2 by (simp add: i2 f2)
  then obtain r where r: "parseRobotLine ''PRGV:7,0x1F,-3z'' = Some r" by auto
  have "map Some (record_ints r) = [Some 7, Some 31, Some (- 3)]"
    using th2 r v2 by (simp add: i2 f2)
  then have "record_ints r = [7, 31, - 3]" by auto
  then show ?thesis using t m f p rej t2 m2 f2 r by simp
qed

text \<open>
  C3 as the specification states it fails on the line \<open>TCOUT:5x\<close>: the tag is recognised, the
  one field \<open>5x\<close> meets the minimum and stands in the integer position, it is not a base-10
  numeral, and the decoder returns the TitleCount record with count 5.
\<close>

theorem parseRobotLine_partial_number_counterexample:
  "line_tag ''TCOUT:5x'' = Some ''TCOUT'' \<and> min_fields ''TCOUT'' = Some 1
   \<and> int_positions ''TCOUT'' = [0] \<and> line_fields ''TCOUT:5x'' = [''5x'']
   \<and> \<not> base10_numeral ''5x''
   \<and> parseRobotLine ''TCOUT:5x'' = Some (TitleCount 5)"
  by code_simp

subsection \<open>Totality\<close>

text \<open>
  C6. For every input string parseRobotLine returns: the scan of the tokenizer is a
  recursion on the payload, and the result is \<open>null\<close> or a record. With the built-in
  \<open>parseInt\<close> the \<open>try\<close> block never throws, whatever the tag and the payload. Should the
  numeric parser throw (it is the argument \<open>parse_int\<close> here), the exception leaves the
  \<open>switch\<close> and the function returns \<open>null\<close>.
\<close>

theorem parseRobotLine_total:
  "(parseRobotLine line = None \<or> (\<exists>r. parseRobotLine line = Some r))
   \<and> (\<exists>res. parseRobotLine_switch parseInt_completion tag rest = Inr res)
   \<and> (line_tag line = Some tag \<and>
        parseRobotLine_switch parse_int tag (line_payload line) = Inl e
        \<longrightarrow> parseRobotLine_with parse_int line = None)"
proof -
  have "parseRobotLine line = None \<or> (\<exists>r. parseRobotLine line = Some r)"
    by (cases "parseRobotLine line") auto
  moreover have "\<exists>res. parseRobotLine_switch parseInt_completion tag rest = Inr res"
    by (rule switch_never_throws)
  moreover have "parseRobotLine_with parse_int line = None"
    if "line_tag line = Some tag"
      "parseRobotLine_switch parse_int tag (line_payload line) = Inl e"
    using that by (simp add: parseRobotLine_with_tag)
  ultimately show ?thesis by blast
qed

theorem parseRobotLine_total_witness:
  "line_tag ''TCOUT:5'' = Some ''TCOUT''
   \<and> parseRobotLine_switch (\<lambda>s. Inl Exception) ''TCOUT'' (line_payload ''TCOUT:5'')
       = Inl Exception
   \<and> parseRobotLine_with (\<lambda>s. Inl Exception) ''TCOUT:5'' = None
   \<and> parseRobotLine ''TCOUT:5'' = Some (TitleCount 5)"
proof -
  have t: "line_tag ''TCOUT:5'' = Some ''TCOUT''" by code_simp
  have p: "line_payload ''TCOUT:5'' = ''5''" by code_simp
  have v: "parseRobotValues ''5'' = [''5'']" by code_simp
  have s: "parseRobotLine_switch (\<lambda>s. Inl Exception) ''TCOUT'' (line_payload ''TCOUT:5'')
           = Inl Exception"
    by (simp add: p switch_TCOUT v try_bind_def)
  have "parseRobotLine_with (\<lambda>s. Inl Exception) ''TCOUT:5'' = None"
    using parseRobotLine_total [of "''TCOUT:5''" "''TCOUT''" "[]" "\<lambda>s. Inl Exception" Exception]
      t s by blast
  moreover have "parseRobotLine ''TCOUT:5'' = Some (TitleCount 5)" by code_simp
  ultimately show ?thesis using t s by simp
qed

subsection \<open>The five lines of the specification\<close>

text \<open>
  C2. The code on the five lines: the disc attribute collection maps 1 to \<open>DVD\<close> and 32 to
  \<open>MY_DISC\<close> and there are exactly two titles, 0 and 1 in that order, but the attribute
  collection of title 0 maps 2 and 16 to the string \<open>0\<close>, not to \<open>Title 1\<close> and
  \<open>00001.m2ts\<close>: the decoder takes \<open>parts[2]\<close> as the value, and in a TINFO line that field
  is the message code.
\<close>

theorem example_titles_hold_message_code:
  "parseRobotOutput example_output =
     [InfoOutput CINFO 1 0 ''DVD'', InfoOutput CINFO 32 0 ''MY_DISC'',
      InfoOutput TINFO 0 2 ''0'', InfoOutput TINFO 0 16 ''0'', InfoOutput TINFO 1 2 ''0'']
   \<and> parseDiscInfo (parseRobotOutput example_output) =
     Inr \<lparr>disc_attributes = [(1, ''DVD''), (32, ''MY_DISC'')],
          disc_titles =
            [\<lparr>title_id = 0, title_attributes = [(2, ''0''), (16, ''0'')],
               title_streams = []\<rparr>,
             \<lparr>title_id = 1, title_attributes = [(2, ''0'')], title_streams = []\<rparr>]\<rparr>"
  by code_simp

end
